theory Spec2Isabelle
  imports Main "HOL-Library.Word"
begin

section \<open>Data model\<close>

text \<open>
  Bytes are Go's \<open>byte\<close> (\<open>uint8\<close>); a Go \<open>error\<close> is represented by its message, the
  only thing the handlers do with an error besides testing it for \<open>nil\<close> and \<open>io.EOF\<close>.
\<close>

type_synonym byte = "8 word"
type_synonym bytes = "byte list"
type_synonym err = string

text \<open>gRPC status codes used by \<open>media_handler.go\<close> and the status error built from them.\<close>

datatype code = InvalidArgument | NotFound | Internal

datatype status = Status code string

fun status_code :: "status \<Rightarrow> code" where
  "status_code (Status c msg) = c"

text \<open>
  Modelled from the spec: the generated protocol messages (package \<open>mediav1\<close>) are not
  part of the sources; their fields are the ones the handlers read and write and the ones
  section 6 of the specification lists.
\<close>

record FileMetadata =
  md_FileName :: string
  md_FileSize :: int
  md_ContentType :: string

datatype UploadStreamRequest = ReqMetadata FileMetadata | ReqChunk bytes | ReqUnset

fun GetMetadata :: "UploadStreamRequest \<Rightarrow> FileMetadata option" where
  "GetMetadata (ReqMetadata m) = Some m"
| "GetMetadata (ReqChunk c) = None"
| "GetMetadata ReqUnset = None"

text \<open>
  The getters return \<open>nil\<close> (here \<open>None\<close>) when the frame holds the other part or none.
  A chunk frame received from the wire holds a payload that is not \<open>nil\<close>, even when it
  has no bytes.
\<close>

fun GetChunk :: "UploadStreamRequest \<Rightarrow> bytes option" where
  "GetChunk (ReqChunk c) = Some c"
| "GetChunk (ReqMetadata m) = None"
| "GetChunk ReqUnset = None"

record UploadRequest =
  ur_FileName :: string
  ur_Content :: bytes
  ur_ContentType :: string

record UploadResponse =
  up_FilePath :: string
  up_Url :: string
  up_FileSize :: int
  up_UploadedAt :: string

record DownloadResponse =
  dl_FileName :: string
  dl_Content :: bytes
  dl_ContentType :: string
  dl_FileSize :: int

datatype DownloadStreamResponse = RespMetadata FileMetadata | RespChunk bytes

record GetFileInfoResponse =
  fi_FilePath :: string
  fi_Url :: string

record DeleteResponse =
  del_Success :: bool
  del_Message :: string

subsection \<open>The world outside the service\<close>

text \<open>
  What \<open>stream.Recv()\<close> returns, call after call: a frame, or a transport error. Once the
  list is used up every further call returns \<open>io.EOF\<close>.
\<close>

datatype recv_event = Recv UploadStreamRequest | RecvFail err

text \<open>
  A byte stream handed to the object store: the bytes it can read, and how the stream ends
  (\<open>None\<close>: a clean end-of-stream; \<open>Some e\<close>: the read error \<open>e\<close>).
\<close>

type_synonym byte_stream = "bytes \<times> err option"

text \<open>Wall-clock time as \<open>time.Now()\<close> reports it.\<close>

record time =
  t_year :: nat
  t_month :: nat
  t_day :: nat
  t_hour :: nat
  t_minute :: nat
  t_second :: nat
  t_zone :: string

text \<open>
  The read handle returned by the MinIO client: the bytes still to be read, the result of
  \<open>Stat\<close>, an optional fault that replaces the end-of-stream, and the moment at which the
  handle reports \<open>io.EOF\<close> (together with the last bytes, on the call after them, or together
  with them only when the buffer was not filled: \<open>io.Reader\<close> allows all three).
\<close>

datatype eof_policy = EofWithData | EofAfterData | EofWithShortRead

record minio_object =
  obj_data :: bytes
  obj_stat_err :: "err option"
  obj_fault :: "err option"
  obj_eof :: eof_policy

text \<open>
  How a storage write reads the byte stream it is handed, which the client library
  decides from the declared size: to the end of the stream; or a number of bytes, after
  which it reads no more and leaves the stream open; or a number of bytes, after which it
  closes its end of the stream.
\<close>

datatype reading = ReadsAll | StopsAfter nat | ClosesAfter nat

text \<open>
  The collaborators of the service: configuration (\<open>bucketName\<close>, \<open>fileURL\<close>), the sources
  of identifiers and time, the MinIO client, and the behaviour of the transport. Each is a
  parameter; none is fixed by the repository.
\<close>

record env =
  bucketName :: string
  fileURL :: string
  uuid_src :: "nat \<Rightarrow> bytes"
  clock :: "nat \<Rightarrow> time"
  put_object :: "string \<Rightarrow> string \<Rightarrow> byte_stream \<Rightarrow> int \<Rightarrow> string \<Rightarrow> err option"
  get_object :: "string \<Rightarrow> string \<Rightarrow> err + minio_object"
  remove_object :: "string \<Rightarrow> string \<Rightarrow> err option"
  put_reading :: "int \<Rightarrow> reading"
  send_err :: "nat \<Rightarrow> err option"
  send_and_close_err :: "status option"

text \<open>Operations invoked on the MinIO client, in the order of invocation.\<close>

datatype client_call =
    PutObject string string byte_stream int string
  | GetObject string string
  | StatObject string string
  | CloseObject string string
  | RemoveObject string string

record world =
  uuid_draws :: nat
  clock_reads :: nat
  calls :: "client_call list"

section \<open>Library functions the code calls\<close>

text \<open>
  Go's \<open>path/filepath.Ext\<close> on a Unix system, where the only path separator is the
  slash. The loop walks the name from its last character towards the first, stops at a
  separator, and returns the suffix that begins at the first dot it meets.
\<close>

fun ext_scan :: "string \<Rightarrow> string \<Rightarrow> string" where
  "ext_scan [] suffix = []"
| "ext_scan (c # before) suffix =
     (if c = CHR ''/'' then []
      else if c = CHR ''.'' then c # suffix
      else ext_scan before (c # suffix))"

definition filepath_Ext :: "string \<Rightarrow> string" where
  "filepath_Ext path = ext_scan (rev path) []"

text \<open>
  \<open>encoding/hex.Encode\<close> (two lower-case digits per byte, high nibble first) and the
  canonical form \<open>UUID.String\<close> of \<open>github.com/google/uuid\<close>, in groups of 4, 2, 2, 2 and
  6 bytes separated by hyphens.
\<close>

definition hexdigit :: "nat \<Rightarrow> char" where
  "hexdigit n = ''0123456789abcdef'' ! n"

fun hex_Encode :: "bytes \<Rightarrow> string" where
  "hex_Encode [] = []"
| "hex_Encode (v # vs) =
     hexdigit (unat v div 16) # hexdigit (unat v mod 16) # hex_Encode vs"

definition uuid_String :: "bytes \<Rightarrow> string" where
  "uuid_String u =
     hex_Encode (take 4 u) @ ''-'' @
     hex_Encode (take 2 (drop 4 u)) @ ''-'' @
     hex_Encode (take 2 (drop 6 u)) @ ''-'' @
     hex_Encode (take 2 (drop 8 u)) @ ''-'' @
     hex_Encode (drop 10 u)"

text \<open>
  \<open>time.Format\<close> for the two layouts in use: \<open>2006/01/02\<close> (year on at least four
  digits, month and day on two) and RFC 3339.
\<close>

definition digit :: "nat \<Rightarrow> char" where
  "digit n = ''0123456789'' ! n"

fun decimal :: "nat \<Rightarrow> string" where
  "decimal n = (if n < 10 then [digit n] else decimal (n div 10) @ [digit (n mod 10)])"

declare decimal.simps [simp del]

definition zero_pad :: "nat \<Rightarrow> nat \<Rightarrow> string" where
  "zero_pad width n = replicate (width - length (decimal n)) (CHR ''0'') @ decimal n"

definition format_date :: "time \<Rightarrow> string" where
  "format_date t =
     zero_pad 4 (t_year t) @ ''/'' @ zero_pad 2 (t_month t) @ ''/'' @ zero_pad 2 (t_day t)"

definition format_RFC3339 :: "time \<Rightarrow> string" where
  "format_RFC3339 t =
     zero_pad 4 (t_year t) @ ''-'' @ zero_pad 2 (t_month t) @ ''-'' @ zero_pad 2 (t_day t) @
     ''T'' @ zero_pad 2 (t_hour t) @ '':'' @ zero_pad 2 (t_minute t) @ '':'' @
     zero_pad 2 (t_second t) @ t_zone t"

text \<open>\<open>uuid.NewString()\<close> and \<open>time.Now()\<close> take the next value of their source.\<close>

definition uuid_NewString :: "env \<Rightarrow> world \<Rightarrow> string \<times> world" where
  "uuid_NewString e w =
     (uuid_String (uuid_src e (uuid_draws w)), w\<lparr>uuid_draws := Suc (uuid_draws w)\<rparr>)"

definition time_Now :: "env \<Rightarrow> world \<Rightarrow> time \<times> world" where
  "time_Now e w = (clock e (clock_reads w), w\<lparr>clock_reads := Suc (clock_reads w)\<rparr>)"

text \<open>
  \<open>Read\<close> on the read handle with a buffer of \<open>k\<close> bytes. The MinIO client library is
  not part of the repository; as the specification has it (fixed-size chunks are read from
  the storage read handle), the handle fills the buffer as far as bytes remain, so that
  only the last read of an object can be short. A read of an exhausted handle returns no
  bytes and \<open>io.EOF\<close>, or the fault. \<open>io.ReadAll\<close> reads a handle to its end and returns
  the bytes, or the fault.
\<close>

datatype read_status = ReadOk | ReadEOF | ReadErr err

definition eof_now :: "eof_policy \<Rightarrow> nat \<Rightarrow> nat \<Rightarrow> bool" where
  "eof_now pol n k =
     (case pol of EofWithData \<Rightarrow> True | EofAfterData \<Rightarrow> False | EofWithShortRead \<Rightarrow> n < k)"

definition object_Read :: "minio_object \<Rightarrow> nat \<Rightarrow> bytes \<times> read_status \<times> minio_object" where
  "object_Read obj k =
     (if obj_data obj = [] then
        ([], (case obj_fault obj of None \<Rightarrow> ReadEOF | Some er \<Rightarrow> ReadErr er), obj)
      else
        (let chunk = take k (obj_data obj); rest = drop k (obj_data obj)
         in (chunk,
             (if rest = [] \<and> obj_fault obj = None \<and> eof_now (obj_eof obj) (length chunk) k
              then ReadEOF else ReadOk),
             obj\<lparr>obj_data := rest\<rparr>)))"

definition io_ReadAll :: "minio_object \<Rightarrow> err + bytes" where
  "io_ReadAll obj = (case obj_fault obj of None \<Rightarrow> Inr (obj_data obj) | Some er \<Rightarrow> Inl er)"

section \<open>Storage adapter (package storage)\<close>

text \<open>
  The first four statements of \<open>MinioStorage.Upload\<close>: the path policy that the
  specification calls GenerateKey.
\<close>

definition GenerateKey :: "env \<Rightarrow> world \<Rightarrow> string \<Rightarrow> string \<times> world" where
  "GenerateKey e w fileName =
     (let ext = filepath_Ext fileName;
          (uniqueID, w1) = uuid_NewString e w;
          (now, w2) = time_Now e w1;
          timestamp = format_date now;
          filePath = timestamp @ ''/'' @ uniqueID @ ext
      in (filePath, w2))"

definition log_call :: "client_call \<Rightarrow> world \<Rightarrow> world" where
  "log_call c w = w\<lparr>calls := calls w @ [c]\<rparr>"

text \<open>
  What a storage write gets from a stream: all of it, or the bytes it reads before it
  stops, without the end of the stream when it stops before the end.
\<close>

definition observe :: "reading \<Rightarrow> byte_stream \<Rightarrow> byte_stream" where
  "observe r s =
     (case r of
        ReadsAll \<Rightarrow> s
      | StopsAfter k \<Rightarrow> (if length (fst s) < k then s else (take k (fst s), None))
      | ClosesAfter k \<Rightarrow> (if length (fst s) < k then s else (take k (fst s), None)))"

text \<open>
  \<open>MinioStorage.Upload\<close>. \<open>PutObject\<close> is called with the reader and the declared size;
  the call is recorded with what it reads from the reader.
\<close>

definition MinioStorage_Upload ::
  "env \<Rightarrow> world \<Rightarrow> string \<Rightarrow> int \<Rightarrow> byte_stream \<Rightarrow> string \<Rightarrow> world \<times> (err + string)" where
  "MinioStorage_Upload e w fileName fileSize reader contentType =
     (let (filePath, w1) = GenerateKey e w fileName;
          body = observe (put_reading e fileSize) reader;
          w2 = log_call (PutObject (bucketName e) filePath body fileSize contentType) w1
      in (case put_object e (bucketName e) filePath body fileSize contentType of
            Some er \<Rightarrow> (w2, Inl (''failed to upload file: '' @ er))
          | None \<Rightarrow> (w2, Inr filePath)))"

text \<open>\<open>MinioStorage.Download\<close>.\<close>

definition MinioStorage_Download ::
  "env \<Rightarrow> world \<Rightarrow> string \<Rightarrow> world \<times> (err + minio_object)" where
  "MinioStorage_Download e w filePath =
     (let w1 = log_call (GetObject (bucketName e) filePath) w
      in (case get_object e (bucketName e) filePath of
            Inl er \<Rightarrow> (w1, Inl (''failed to download file: '' @ er))
          | Inr object \<Rightarrow>
              (let w2 = log_call (StatObject (bucketName e) filePath) w1
               in (case obj_stat_err object of
                     Some er \<Rightarrow>
                       (log_call (CloseObject (bucketName e) filePath) w2,
                        Inl (''file not found: '' @ er))
                   | None \<Rightarrow> (w2, Inr object)))))"

text \<open>\<open>MinioStorage.Delete\<close>.\<close>

definition MinioStorage_Delete :: "env \<Rightarrow> world \<Rightarrow> string \<Rightarrow> world \<times> err option" where
  "MinioStorage_Delete e w filePath =
     (let w1 = log_call (RemoveObject (bucketName e) filePath) w
      in (case remove_object e (bucketName e) filePath of
            Some er \<Rightarrow> (w1, Some (''failed to delete file: '' @ er))
          | None \<Rightarrow> (w1, None)))"

text \<open>\<open>MinioStorage.GetURL\<close>.\<close>

definition MinioStorage_GetURL :: "env \<Rightarrow> string \<Rightarrow> string" where
  "MinioStorage_GetURL e filePath =
     (if fileURL e = [] then []
      else fileURL e @ ''/'' @ bucketName e @ ''/'' @ filePath)"

section \<open>Service layer (package service)\<close>

text \<open>\<open>bytes.NewReader(content)\<close>: the content, then a clean end-of-stream.\<close>

definition bytes_NewReader :: "bytes \<Rightarrow> byte_stream" where
  "bytes_NewReader content = (content, None)"

definition MediaService_UploadFile ::
  "env \<Rightarrow> world \<Rightarrow> string \<Rightarrow> bytes \<Rightarrow> string \<Rightarrow> world \<times> (err + string)" where
  "MediaService_UploadFile e w fileName content contentType =
     (let reader = bytes_NewReader content;
          fileSize = int (length content)
      in MinioStorage_Upload e w fileName fileSize reader contentType)"

definition MediaService_UploadStream ::
  "env \<Rightarrow> world \<Rightarrow> string \<Rightarrow> int \<Rightarrow> byte_stream \<Rightarrow> string \<Rightarrow> world \<times> (err + string)" where
  "MediaService_UploadStream e w fileName fileSize reader contentType =
     MinioStorage_Upload e w fileName fileSize reader contentType"

definition MediaService_DownloadFile ::
  "env \<Rightarrow> world \<Rightarrow> string \<Rightarrow> world \<times> (err + minio_object)" where
  "MediaService_DownloadFile e w filePath = MinioStorage_Download e w filePath"

definition MediaService_DeleteFile :: "env \<Rightarrow> world \<Rightarrow> string \<Rightarrow> world \<times> err option" where
  "MediaService_DeleteFile e w filePath = MinioStorage_Delete e w filePath"

definition MediaService_GetFileURL :: "env \<Rightarrow> string \<Rightarrow> string" where
  "MediaService_GetFileURL e filePath = MinioStorage_GetURL e filePath"

section \<open>Handlers (package handler)\<close>

text \<open>
  Log output is not modelled. Every handler takes the world and returns it updated,
  together with its answer: a status error, or the response.
\<close>

text \<open>\<open>MediaHandler.Upload\<close>.\<close>

definition MediaHandler_Upload ::
  "env \<Rightarrow> world \<Rightarrow> UploadRequest \<Rightarrow> world \<times> (status + UploadResponse)" where
  "MediaHandler_Upload e w req =
     (case MediaService_UploadFile e w (ur_FileName req) (ur_Content req) (ur_ContentType req) of
        (w1, Inl er) \<Rightarrow> (w1, Inl (Status Internal (''failed to upload file: '' @ er)))
      | (w1, Inr filePath) \<Rightarrow>
          (let url = MediaService_GetFileURL e filePath;
               fileSize = int (length (ur_Content req));
               (now, w2) = time_Now e w1
           in (w2, Inr \<lparr>up_FilePath = filePath, up_Url = url, up_FileSize = fileSize,
                        up_UploadedAt = format_RFC3339 now\<rparr>)))"

text \<open>
  The conduit of \<open>UploadStream\<close> (\<open>io.Pipe\<close>) has no buffer: a write returns once the
  reading side has taken every byte of the chunk, fails once the reading side has closed
  its end, and otherwise waits. So a write to a storage write that has stopped reading
  and left its end open never returns; nothing in the handler closes the reading end. A
  write of no bytes is taken by a reader that is still reading.
\<close>

datatype write_result = Accepted nat | Refused err | Blocks

definition pipe_Write :: "reading \<Rightarrow> bytes \<Rightarrow> bytes \<Rightarrow> write_result" where
  "pipe_Write r written chunk =
     (case r of
        ReadsAll \<Rightarrow> Accepted (length chunk)
      | StopsAfter k \<Rightarrow>
          (if length written < k \<and> length written + length chunk \<le> k
           then Accepted (length chunk) else Blocks)
      | ClosesAfter k \<Rightarrow>
          (if length written < k \<and> length written + length chunk \<le> k
           then Accepted (length chunk) else Refused ''io: read/write on closed pipe''))"

text \<open>
  The receive loop of \<open>UploadStream\<close>, with the bytes written to the conduit so far and
  the counter \<open>totalBytes\<close>. It ends in one of four ways: the inbound stream is at its
  end, a receive fails, a write to the conduit fails, or a write to the conduit never
  returns. In the last two the bytes given are those offered to the reading side, the
  chunk of the last write included.
\<close>

datatype loop_end =
    Drained bytes int
  | RecvFailed bytes err
  | WriteFailed bytes err
  | Blocked bytes

fun recv_chunks :: "reading \<Rightarrow> recv_event list \<Rightarrow> bytes \<Rightarrow> int \<Rightarrow> loop_end" where
  "recv_chunks r [] written totalBytes = Drained written totalBytes"
| "recv_chunks r (RecvFail er # rest) written totalBytes = RecvFailed written er"
| "recv_chunks r (Recv req # rest) written totalBytes =
     (case GetChunk req of
        None \<Rightarrow> recv_chunks r rest written totalBytes
      | Some chunk \<Rightarrow>
          (case pipe_Write r written chunk of
             Refused er \<Rightarrow> WriteFailed (written @ chunk) er
           | Blocks \<Rightarrow> Blocked (written @ chunk)
           | Accepted n \<Rightarrow> recv_chunks r rest (written @ chunk) (totalBytes + int n)))"

text \<open>
  \<open>MediaHandler.UploadStream\<close>. The storage write runs beside the receive loop, is given
  the declared size of the metadata, and reads the conduit as \<open>put_reading\<close> says for that
  size. The two activities are put in sequence here: the loop first, against that way of
  reading, then the storage write on the stream the loop produced; the key and the date
  are those the storage write takes when it starts. The answer is \<open>None\<close> when the call
  never returns, which is the case when a write to the conduit waits for ever; the storage
  write has taken place all the same. When the loop leaves early the result of the storage
  write is dropped. The counter \<open>totalBytes\<close> is an \<open>int64\<close> in the code and an unbounded
  integer here: it counts bytes received, and stays far below \<open>2^63\<close>.
\<close>

definition MediaHandler_UploadStream ::
  "env \<Rightarrow> world \<Rightarrow> recv_event list \<Rightarrow> world \<times> (status + UploadResponse) option" where
  "MediaHandler_UploadStream e w inbound =
     (case inbound of
        [] \<Rightarrow>
          (w, Some (Inl (Status InvalidArgument (''failed to receive metadata: '' @ ''EOF''))))
      | RecvFail er # rest \<Rightarrow>
          (w, Some (Inl (Status InvalidArgument (''failed to receive metadata: '' @ er))))
      | Recv req # rest \<Rightarrow>
          (case GetMetadata req of
             None \<Rightarrow>
               (w, Some (Inl (Status InvalidArgument ''first message must be metadata'')))
           | Some metadata \<Rightarrow>
               (case recv_chunks (put_reading e (md_FileSize metadata)) rest [] 0 of
                  RecvFailed written er \<Rightarrow>
                    (fst (MediaService_UploadStream e w (md_FileName metadata)
                            (md_FileSize metadata) (written, Some er) (md_ContentType metadata)),
                     Some (Inl (Status Internal (''failed to receive chunk: '' @ er))))
                | WriteFailed written er \<Rightarrow>
                    (fst (MediaService_UploadStream e w (md_FileName metadata)
                            (md_FileSize metadata) (written, Some er) (md_ContentType metadata)),
                     Some (Inl (Status Internal (''failed to write chunk: '' @ er))))
                | Blocked written \<Rightarrow>
                    (fst (MediaService_UploadStream e w (md_FileName metadata)
                            (md_FileSize metadata) (written, None) (md_ContentType metadata)),
                     None)
                | Drained written totalBytes \<Rightarrow>
                    (case MediaService_UploadStream e w (md_FileName metadata)
                            (md_FileSize metadata) (written, None) (md_ContentType metadata) of
                       (w1, Inl er) \<Rightarrow>
                         (w1, Some (Inl (Status Internal (''failed to upload file: '' @ er))))
                     | (w1, Inr filePath) \<Rightarrow>
                         (let url = MediaService_GetFileURL e filePath;
                              (now, w2) = time_Now e w1
                          in (case send_and_close_err e of
                                Some st \<Rightarrow> (w2, Some (Inl st))
                              | None \<Rightarrow>
                                  (w2, Some (Inr \<lparr>up_FilePath = filePath, up_Url = url,
                                                  up_FileSize = totalBytes,
                                                  up_UploadedAt = format_RFC3339 now\<rparr>))))))))"

text \<open>\<open>MediaHandler.Download\<close>; the deferred \<open>reader.Close()\<close> runs on both ways out.\<close>

definition MediaHandler_Download ::
  "env \<Rightarrow> world \<Rightarrow> string \<Rightarrow> world \<times> (status + DownloadResponse)" where
  "MediaHandler_Download e w filePath =
     (case MediaService_DownloadFile e w filePath of
        (w1, Inl er) \<Rightarrow> (w1, Inl (Status NotFound (''file not found: '' @ er)))
      | (w1, Inr reader) \<Rightarrow>
          (let w2 = log_call (CloseObject (bucketName e) filePath) w1
           in (case io_ReadAll reader of
                 Inl er \<Rightarrow> (w2, Inl (Status Internal (''failed to read file content: '' @ er)))
               | Inr content \<Rightarrow>
                   (w2, Inr \<lparr>dl_FileName = filePath, dl_Content = content,
                             dl_ContentType = ''application/octet-stream'',
                             dl_FileSize = int (length content)\<rparr>))))"

text \<open>
  \<open>stream.Send\<close> on the outbound stream of \<open>DownloadStream\<close>: the frame is appended to
  those sent, unless the transport refuses it.
\<close>

definition stream_Send ::
  "env \<Rightarrow> DownloadStreamResponse list \<Rightarrow> DownloadStreamResponse \<Rightarrow>
     err + DownloadStreamResponse list" where
  "stream_Send e sent frame =
     (case send_err e (length sent) of
        Some er \<Rightarrow> Inl er
      | None \<Rightarrow> Inr (sent @ [frame]))"

text \<open>The size of the buffer of \<open>DownloadStream\<close>: \<open>32*1024\<close>.\<close>

definition buffer_size :: nat where
  "buffer_size = 32 * 1024"

text \<open>
  The chunk loop of \<open>DownloadStream\<close>: read, send what was read if anything was, stop
  at the end of the stream or at an error. It returns the frames sent and the status.
\<close>

function stream_chunks ::
  "env \<Rightarrow> minio_object \<Rightarrow> DownloadStreamResponse list \<Rightarrow>
     DownloadStreamResponse list \<times> status option" where
  "stream_chunks e reader sent =
     (case object_Read reader buffer_size of
        (chunk, st, reader') \<Rightarrow>
          (case (if length chunk > 0 then stream_Send e sent (RespChunk chunk) else Inr sent) of
             Inl er \<Rightarrow> (sent, Some (Status Internal (''failed to send chunk: '' @ er)))
           | Inr sent' \<Rightarrow>
               (case st of
                  ReadEOF \<Rightarrow> (sent', None)
                | ReadErr er \<Rightarrow> (sent', Some (Status Internal (''failed to read file: '' @ er)))
                | ReadOk \<Rightarrow> stream_chunks e reader' sent')))"
  by pat_completeness auto

termination
  by (relation "measure (\<lambda>(e, reader, sent). length (obj_data reader))")
     (auto simp: object_Read_def Let_def buffer_size_def split: if_splits option.splits)

declare stream_chunks.simps [simp del]

text \<open>\<open>MediaHandler.DownloadStream\<close>, with the frames sent on the outbound stream.\<close>

definition MediaHandler_DownloadStream ::
  "env \<Rightarrow> world \<Rightarrow> string \<Rightarrow> world \<times> DownloadStreamResponse list \<times> status option" where
  "MediaHandler_DownloadStream e w filePath =
     (case MediaService_DownloadFile e w filePath of
        (w1, Inl er) \<Rightarrow> (w1, [], Some (Status NotFound (''file not found: '' @ er)))
      | (w1, Inr reader) \<Rightarrow>
          (let w2 = log_call (CloseObject (bucketName e) filePath) w1
           in (case stream_Send e []
                      (RespMetadata \<lparr>md_FileName = filePath, md_FileSize = 0,
                                     md_ContentType = []\<rparr>) of
                 Inl er \<Rightarrow> (w2, [], Some (Status Internal (''failed to send metadata: '' @ er)))
               | Inr sent \<Rightarrow>
                   (case stream_chunks e reader sent of (sent', st) \<Rightarrow> (w2, sent', st)))))"

text \<open>\<open>MediaHandler.Delete\<close>.\<close>

definition MediaHandler_Delete ::
  "env \<Rightarrow> world \<Rightarrow> string \<Rightarrow> world \<times> (status + DeleteResponse)" where
  "MediaHandler_Delete e w filePath =
     (case MediaService_DeleteFile e w filePath of
        (w1, Some er) \<Rightarrow> (w1, Inl (Status Internal (''failed to delete file: '' @ er)))
      | (w1, None) \<Rightarrow>
          (w1, Inr \<lparr>del_Success = True, del_Message = ''File deleted successfully''\<rparr>))"

text \<open>\<open>MediaHandler.GetURL\<close> and \<open>MediaHandler.GetFileInfo\<close>.\<close>

definition MediaHandler_GetURL :: "env \<Rightarrow> world \<Rightarrow> string \<Rightarrow> world \<times> (status + string)" where
  "MediaHandler_GetURL e w filePath =
     (let url = MediaService_GetFileURL e filePath in (w, Inr url))"

definition MediaHandler_GetFileInfo ::
  "env \<Rightarrow> world \<Rightarrow> string \<Rightarrow> world \<times> (status + GetFileInfoResponse)" where
  "MediaHandler_GetFileInfo e w filePath =
     (let url = MediaService_GetFileURL e filePath
      in (w, Inr \<lparr>fi_FilePath = filePath, fi_Url = url\<rparr>))"

section \<open>Cutting a byte string into pieces\<close>

text \<open>
  The pieces of at most \<open>k\<close> elements into which a list falls when it is cut from the
  front; used to say which chunk frames a streamed download consists of.
\<close>

function chunks_of :: "nat \<Rightarrow> 'a list \<Rightarrow> 'a list list" where
  "chunks_of k xs = (if k = 0 \<or> xs = [] then [] else take k xs # chunks_of k (drop k xs))"
  by pat_completeness auto
termination
  by (relation "measure (\<lambda>(k, xs). length xs)") auto

declare chunks_of.simps [simp del]

section \<open>Successive uploads\<close>

text \<open>
  A sequence of calls of \<open>MinioStorage.Upload\<close>, one after the other, each with its file
  name, declared size, byte stream and content type; and the object names that a history
  of client calls handed to \<open>PutObject\<close>.
\<close>

fun put_keys :: "client_call list \<Rightarrow> string list" where
  "put_keys [] = []"
| "put_keys (PutObject bucket key body sz ctype # cs) = key # put_keys cs"
| "put_keys (c # cs) = put_keys cs"

fun uploads ::
  "env \<Rightarrow> world \<Rightarrow> (string \<times> int \<times> byte_stream \<times> string) list \<Rightarrow> world" where
  "uploads e w [] = w"
| "uploads e w ((fileName, fileSize, reader, contentType) # rs) =
     uploads e (fst (MinioStorage_Upload e w fileName fileSize reader contentType)) rs"

section \<open>The extension as the specification words it\<close>

text \<open>
  The last element of a slash-separated path, and the extension of a file name in the
  words of the specification: the substring from the last dot to the end, the dot
  included, or nothing when the name has no dot. These two are not taken from the code;
  they serve to compare \<open>filepath_Ext\<close> with the specification.
\<close>

definition base_name :: "string \<Rightarrow> string" where
  "base_name f = rev (takeWhile (\<lambda>c. c \<noteq> CHR ''/'') (rev f))"

definition spec_ext :: "string \<Rightarrow> string" where
  "spec_ext f =
     (if CHR ''.'' \<in> set f then CHR ''.'' # rev (takeWhile (\<lambda>c. c \<noteq> CHR ''.'') (rev f))
      else [])"

section \<open>A concrete configuration\<close>

text \<open>
  One object store, transport and clock on which the handlers can be run: a storage write
  reads as many bytes as were declared (to the end of the stream when the declared size is
  negative) and succeeds, an object of five bytes and one of 70000 bytes are stored,
  identifiers count upwards.
\<close>

definition example_object :: minio_object where
  "example_object =
     \<lparr>obj_data = [0x68, 0x65, 0x6c, 0x6c, 0x6f], obj_stat_err = None, obj_fault = None,
      obj_eof = EofWithShortRead\<rparr>"

definition big_object :: minio_object where
  "big_object =
     \<lparr>obj_data = replicate 70000 0, obj_stat_err = None, obj_fault = None,
      obj_eof = EofAfterData\<rparr>"

definition example_env :: env where
  "example_env =
     \<lparr>bucketName = ''media'', fileURL = ''https://cdn.example.com'',
      uuid_src = (\<lambda>n. [0, 0, 0, 0, 0, 0, 0x40, 0, 0x80, 0, 0, 0, 0, 0, 0, of_nat n]),
      clock = (\<lambda>n. \<lparr>t_year = 2024, t_month = 1, t_day = 1, t_hour = 12, t_minute = 0,
                      t_second = n, t_zone = ''Z''\<rparr>),
      put_object = (\<lambda>bucket key body size ctype. None),
      get_object = (\<lambda>bucket key.
         if key = ''2024/01/01/abc.png'' then Inr example_object
         else if key = ''2024/01/01/big.bin'' then Inr big_object
         else Inl ''The specified key does not exist.''),
      remove_object = (\<lambda>bucket key. None),
      put_reading = (\<lambda>size. if size < 0 then ReadsAll else StopsAfter (nat size)),
      send_err = (\<lambda>n. None),
      send_and_close_err = None\<rparr>"

definition example_world :: world where
  "example_world = \<lparr>uuid_draws = 0, clock_reads = 0, calls = []\<rparr>"

definition example_metadata :: FileMetadata where
  "example_metadata = \<lparr>md_FileName = ''a.txt'', md_FileSize = 0, md_ContentType = ''text/plain''\<rparr>"

definition sized_metadata :: FileMetadata where
  "sized_metadata = \<lparr>md_FileName = ''a.txt'', md_FileSize = 5, md_ContentType = ''text/plain''\<rparr>"

definition example_uploads :: "(string \<times> int \<times> byte_stream \<times> string) list" where
  "example_uploads =
     [(''photo.jpg'', 2, ([0xff, 0xd8], None), ''image/jpeg''),
      (''photo.jpg'', 2, ([0xff, 0xd8], None), ''image/jpeg''),
      (''photo.jpg'', 2, ([0xff, 0xd8], None), ''image/jpeg'')]"

section \<open>Properties\<close>

text \<open>
  C10: for every path, the empty one included, GetFileInfo does not fail and touches
  neither the object store nor any other part of the world: it answers with the path it
  was given and the URL that GetURL derives for it, whether or not an object is stored there.
\<close>

theorem GetFileInfo_total_and_pure:
  "MediaHandler_GetFileInfo e w p =
     (w, Inr \<lparr>fi_FilePath = p, fi_Url = MinioStorage_GetURL e p\<rparr>)"
  by (simp add: MediaHandler_GetFileInfo_def MediaService_GetFileURL_def)

text \<open>
  C6: for every storage key, GetURL is the base URL, the bucket and the key joined by
  slashes when a base URL is configured, and the empty string when none is; the handler
  answers with that string, never fails, and leaves the world (and so the object store)
  untouched.
\<close>

theorem GetURL_derivation:
  "(fileURL e \<noteq> [] \<longrightarrow> MinioStorage_GetURL e k = fileURL e @ ''/'' @ bucketName e @ ''/'' @ k) \<and>
   (fileURL e = [] \<longrightarrow> MinioStorage_GetURL e k = []) \<and>
   MediaHandler_GetURL e w k = (w, Inr (MinioStorage_GetURL e k))"
  by (simp add: MinioStorage_GetURL_def MediaHandler_GetURL_def MediaService_GetFileURL_def)

theorem GetURL_derivation_witness:
  "fileURL example_env \<noteq> [] \<and>
   MinioStorage_GetURL example_env ''2024/01/01/abc.png'' =
     ''https://cdn.example.com/media/2024/01/01/abc.png'' \<and>
   fileURL (example_env\<lparr>fileURL := []\<rparr>) = [] \<and>
   MinioStorage_GetURL (example_env\<lparr>fileURL := []\<rparr>) ''2024/01/01/abc.png'' = []"
  using GetURL_derivation [of example_env "''2024/01/01/abc.png''" example_world]
        GetURL_derivation [of "example_env\<lparr>fileURL := []\<rparr>" "''2024/01/01/abc.png''" example_world]
  by (simp add: example_env_def)

text \<open>
  C2: when the inbound stream does not begin with a metadata frame (it begins with another
  frame, with a transport error, or it is at its end before any frame), UploadStream
  fails with InvalidArgument and the world is unchanged: no operation of the object store
  is invoked.
\<close>

theorem UploadStream_requires_metadata_first:
  assumes "\<nexists>m rest. inbound = Recv (ReqMetadata m) # rest"
  shows "fst (MediaHandler_UploadStream e w inbound) = w \<and>
         (\<exists>msg. snd (MediaHandler_UploadStream e w inbound) =
                  Some (Inl (Status InvalidArgument msg)))"
proof (cases inbound)
  case Nil
  then show ?thesis by (simp add: MediaHandler_UploadStream_def)
next
  case (Cons ev rest)
  show ?thesis
  proof (cases ev)
    case (Recv req)
    with Cons assms have "GetMetadata req = None" by (cases req) auto
    with Cons Recv show ?thesis by (simp add: MediaHandler_UploadStream_def)
  next
    case (RecvFail er)
    with Cons show ?thesis by (simp add: MediaHandler_UploadStream_def)
  qed
qed

theorem UploadStream_requires_metadata_first_witness:
  "(\<nexists>m rest. [Recv (ReqChunk [0x68, 0x65]), Recv (ReqChunk [0x6c])] = Recv (ReqMetadata m) # rest) \<and>
   fst (MediaHandler_UploadStream example_env example_world
          [Recv (ReqChunk [0x68, 0x65]), Recv (ReqChunk [0x6c])]) = example_world \<and>
   snd (MediaHandler_UploadStream example_env example_world
          [Recv (ReqChunk [0x68, 0x65]), Recv (ReqChunk [0x6c])]) =
     Some (Inl (Status InvalidArgument ''first message must be metadata'')) \<and>
   (\<nexists>m rest. ([] :: recv_event list) = Recv (ReqMetadata m) # rest) \<and>
   MediaHandler_UploadStream example_env example_world [] =
     (example_world, Some (Inl (Status InvalidArgument ''failed to receive metadata: EOF'')))"
  using UploadStream_requires_metadata_first
          [of "[Recv (ReqChunk [0x68, 0x65]), Recv (ReqChunk [0x6c])]" example_env example_world]
        UploadStream_requires_metadata_first [of "[]" example_env example_world]
  by (simp add: MediaHandler_UploadStream_def)

text \<open>
  C5: when the storage adapter returns an error instead of a read handle for a path,
  whatever the error, Download and DownloadStream both fail with NotFound, and
  DownloadStream has sent no frame.
\<close>

theorem Download_missing_is_NotFound:
  assumes "snd (MinioStorage_Download e w p) = Inl er"
  shows "snd (MediaHandler_Download e w p) = Inl (Status NotFound (''file not found: '' @ er)) \<and>
         snd (MediaHandler_DownloadStream e w p) =
           ([], Some (Status NotFound (''file not found: '' @ er)))"
proof -
  obtain w1 where "MinioStorage_Download e w p = (w1, Inl er)"
    using assms by (cases "MinioStorage_Download e w p") auto
  then show ?thesis
    by (simp add: MediaHandler_Download_def MediaHandler_DownloadStream_def
          MediaService_DownloadFile_def)
qed

theorem Download_missing_is_NotFound_witness:
  "snd (MinioStorage_Download example_env example_world ''nonexistent/key'') =
     Inl ''failed to download file: The specified key does not exist.'' \<and>
   snd (MediaHandler_Download example_env example_world ''nonexistent/key'') =
     Inl (Status NotFound
       ''file not found: failed to download file: The specified key does not exist.'') \<and>
   snd (MediaHandler_DownloadStream example_env example_world ''nonexistent/key'') =
     ([], Some (Status NotFound
       ''file not found: failed to download file: The specified key does not exist.''))"
proof -
  have h: "snd (MinioStorage_Download example_env example_world ''nonexistent/key'') =
     Inl ''failed to download file: The specified key does not exist.''"
    by (simp add: MinioStorage_Download_def example_env_def Let_def)
  show ?thesis
    using h Download_missing_is_NotFound [OF h] by simp
qed

subsection \<open>Streaming upload\<close>

lemma GenerateKey_world:
  "snd (GenerateKey e w f) = w\<lparr>uuid_draws := Suc (uuid_draws w), clock_reads := Suc (clock_reads w)\<rparr>"
  by (simp add: GenerateKey_def uuid_NewString_def time_Now_def Let_def)

lemma observe_empty: "observe r ([], None) = ([], None)"
  by (cases r) (simp_all add: observe_def)

lemma MinioStorage_Upload_calls:
  "calls (fst (MinioStorage_Upload e w f sz body ct)) =
     calls w @ [PutObject (bucketName e) (fst (GenerateKey e w f))
                  (observe (put_reading e sz) body) sz ct]"
  by (cases "GenerateKey e w f")
     (use GenerateKey_world [of e w f] in
       \<open>auto simp: MinioStorage_Upload_def log_call_def Let_def split: option.splits\<close>)

lemma MinioStorage_Upload_result:
  "snd (MinioStorage_Upload e w f sz body ct) =
     (case put_object e (bucketName e) (fst (GenerateKey e w f))
             (observe (put_reading e sz) body) sz ct of
        Some er \<Rightarrow> Inl (''failed to upload file: '' @ er)
      | None \<Rightarrow> Inr (fst (GenerateKey e w f)))"
  by (cases "GenerateKey e w f")
     (auto simp: MinioStorage_Upload_def Let_def split: option.splits)

lemma recv_chunks_skip:
  "GetChunk f = None \<Longrightarrow>
   recv_chunks r (pre @ Recv f # post) written tot = recv_chunks r (pre @ post) written tot"
proof (induction pre arbitrary: written tot)
  case Nil
  then show ?case by simp
next
  case (Cons ev pre)
  then show ?case
    by (cases ev) (auto split: option.splits write_result.splits)
qed

text \<open>
  C8: a frame after the first that carries no chunk (a second metadata frame, or a frame
  with neither part set) is skipped by the receive loop: the bytes written to the conduit
  and the byte counter are what they were, no error is raised, and the whole call gives
  the result it gives on the stream without that frame; so it can still succeed.
\<close>

theorem UploadStream_skips_frames_without_chunk:
  assumes "GetChunk f = None"
  shows "recv_chunks r (Recv f # rest) written tot = recv_chunks r rest written tot \<and>
         MediaHandler_UploadStream e w (Recv (ReqMetadata m) # pre @ Recv f # post) =
         MediaHandler_UploadStream e w (Recv (ReqMetadata m) # pre @ post)"
  using assms recv_chunks_skip [OF assms, of "put_reading e (md_FileSize m)" pre post "[]" 0]
  by (simp add: MediaHandler_UploadStream_def)

text \<open>
  C9: a metadata frame followed at once by the end of the inbound stream is not an error.
  The conduit is closed cleanly with nothing written, the storage write is given the empty
  stream, and when it succeeds (and the response can be sent) the response carries the
  generated storage key and the size 0.
\<close>

theorem UploadStream_metadata_only:
  assumes "put_object e (bucketName e) (fst (GenerateKey e w (md_FileName m))) ([], None)
             (md_FileSize m) (md_ContentType m) = None"
      and "send_and_close_err e = None"
  shows "\<exists>w' resp.
           MediaHandler_UploadStream e w [Recv (ReqMetadata m)] = (w', Some (Inr resp)) \<and>
           up_FilePath resp = fst (GenerateKey e w (md_FileName m)) \<and>
           up_FileSize resp = 0 \<and>
           calls w' = calls w @
             [PutObject (bucketName e) (fst (GenerateKey e w (md_FileName m))) ([], None)
                (md_FileSize m) (md_ContentType m)]"
proof -
  let ?up = "MinioStorage_Upload e w (md_FileName m) (md_FileSize m) ([], None) (md_ContentType m)"
  have r: "snd ?up = Inr (fst (GenerateKey e w (md_FileName m)))"
    using assms(1) by (simp add: MinioStorage_Upload_result observe_empty)
  have c: "calls (fst ?up) = calls w @
             [PutObject (bucketName e) (fst (GenerateKey e w (md_FileName m))) ([], None)
                (md_FileSize m) (md_ContentType m)]"
    by (simp add: MinioStorage_Upload_calls observe_empty)
  obtain w1 where up: "?up = (w1, Inr (fst (GenerateKey e w (md_FileName m))))"
    using r by (cases ?up) auto
  with c have "calls w1 = calls w @
             [PutObject (bucketName e) (fst (GenerateKey e w (md_FileName m))) ([], None)
                (md_FileSize m) (md_ContentType m)]" by simp
  with up assms(2) show ?thesis
    by (simp add: MediaHandler_UploadStream_def MediaService_UploadStream_def time_Now_def Let_def)
qed

lemma example_env_simps:
  "bucketName example_env = ''media''"
  "fileURL example_env = ''https://cdn.example.com''"
  "put_object example_env bucket key body sz ctype = None"
  "put_reading example_env 0 = StopsAfter 0"
  "put_reading example_env 5 = StopsAfter 5"
  "send_err example_env k = None"
  "send_and_close_err example_env = None"
  "clock example_env n = \<lparr>t_year = 2024, t_month = 1, t_day = 1, t_hour = 12, t_minute = 0,
                      t_second = n, t_zone = ''Z''\<rparr>"
  by (simp_all add: example_env_def)

lemma example_upload_stream:
  "MediaHandler_UploadStream example_env example_world
     [Recv (ReqMetadata sized_metadata), Recv (ReqChunk [0x68, 0x65]),
      Recv (ReqChunk [0x6c, 0x6c, 0x6f])] =
   (\<lparr>uuid_draws = 1, clock_reads = 2,
      calls = [PutObject ''media'' (fst (GenerateKey example_env example_world ''a.txt''))
                 ([0x68, 0x65, 0x6c, 0x6c, 0x6f], None) 5 ''text/plain'']\<rparr>,
    Some (Inr \<lparr>up_FilePath = fst (GenerateKey example_env example_world ''a.txt''),
         up_Url = ''https://cdn.example.com/media/'' @ fst (GenerateKey example_env example_world ''a.txt''),
         up_FileSize = 5,
         up_UploadedAt = ''2024-01-01T12:00:01Z''\<rparr>))"
proof -
  obtain key w1 where g: "GenerateKey example_env example_world ''a.txt'' = (key, w1)"
    by (cases "GenerateKey example_env example_world ''a.txt''")
  have w1: "w1 = \<lparr>uuid_draws = 1, clock_reads = 1, calls = []\<rparr>"
    using GenerateKey_world [of example_env example_world "''a.txt''"] g
    by (simp add: example_world_def)
  have loop: "recv_chunks (StopsAfter 5)
                [Recv (ReqChunk [0x68, 0x65]), Recv (ReqChunk [0x6c, 0x6c, 0x6f])] [] 0 =
              Drained [0x68, 0x65, 0x6c, 0x6c, 0x6f] 5"
    by (simp add: pipe_Write_def)
  have up: "MinioStorage_Upload example_env example_world ''a.txt'' 5
              ([0x68, 0x65, 0x6c, 0x6c, 0x6f], None) ''text/plain'' =
            (\<lparr>uuid_draws = 1, clock_reads = 1,
               calls = [PutObject ''media'' key ([0x68, 0x65, 0x6c, 0x6c, 0x6f], None) 5
                          ''text/plain'']\<rparr>, Inr key)"
    using g w1 by (simp add: MinioStorage_Upload_def log_call_def observe_def example_env_simps)
  have stamp: "format_RFC3339 (clock example_env 1) = ''2024-01-01T12:00:01Z''"
    by (simp add: example_env_simps format_RFC3339_def zero_pad_def decimal.simps digit_def)
  show ?thesis
    using g loop up stamp
    by (simp add: MediaHandler_UploadStream_def MediaService_UploadStream_def
          time_Now_def MediaService_GetFileURL_def MinioStorage_GetURL_def
          sized_metadata_def example_env_simps)
qed

theorem UploadStream_skips_frames_without_chunk_witness:
  "GetChunk (ReqMetadata example_metadata) = None \<and>
   MediaHandler_UploadStream example_env example_world
     (Recv (ReqMetadata sized_metadata) #
      [Recv (ReqChunk [0x68, 0x65])] @ Recv (ReqMetadata example_metadata) #
      [Recv (ReqChunk [0x6c, 0x6c, 0x6f])]) =
   MediaHandler_UploadStream example_env example_world
     (Recv (ReqMetadata sized_metadata) #
      [Recv (ReqChunk [0x68, 0x65])] @ [Recv (ReqChunk [0x6c, 0x6c, 0x6f])]) \<and>
   (\<exists>resp. snd (MediaHandler_UploadStream example_env example_world
     (Recv (ReqMetadata sized_metadata) #
      [Recv (ReqChunk [0x68, 0x65])] @ Recv (ReqMetadata example_metadata) #
      [Recv (ReqChunk [0x6c, 0x6c, 0x6f])])) = Some (Inr resp) \<and> up_FileSize resp = 5)"
proof -
  have h: "GetChunk (ReqMetadata example_metadata) = None" by simp
  from UploadStream_skips_frames_without_chunk [OF h, of ReadsAll "[]" "[]" 0 example_env
      example_world sized_metadata "[Recv (ReqChunk [0x68, 0x65])]"
      "[Recv (ReqChunk [0x6c, 0x6c, 0x6f])]"]
  show ?thesis using example_upload_stream by simp
qed

theorem UploadStream_metadata_only_witness:
  "put_object example_env (bucketName example_env)
     (fst (GenerateKey example_env example_world (md_FileName example_metadata))) ([], None)
     (md_FileSize example_metadata) (md_ContentType example_metadata) = None \<and>
   send_and_close_err example_env = None \<and>
   (\<exists>w' resp.
      MediaHandler_UploadStream example_env example_world [Recv (ReqMetadata example_metadata)] =
        (w', Some (Inr resp)) \<and>
      up_FilePath resp = fst (GenerateKey example_env example_world ''a.txt'') \<and>
      up_FileSize resp = 0 \<and>
      calls w' = [PutObject ''media'' (fst (GenerateKey example_env example_world ''a.txt''))
                    ([], None) 0 ''text/plain''])"
proof -
  have h1: "put_object example_env (bucketName example_env)
     (fst (GenerateKey example_env example_world (md_FileName example_metadata))) ([], None)
     (md_FileSize example_metadata) (md_ContentType example_metadata) = None"
    by (simp add: example_env_def)
  have h2: "send_and_close_err example_env = None"
    by (simp add: example_env_def)
  from UploadStream_metadata_only [OF h1 h2] h1 h2 show ?thesis
    by (simp add: example_metadata_def example_env_simps example_world_def)
qed

subsection \<open>Streaming download\<close>

lemma chunks_of_Nil: "chunks_of k [] = []"
  by (simp add: chunks_of.simps)

lemma chunks_of_step:
  "0 < k \<Longrightarrow> xs \<noteq> [] \<Longrightarrow> chunks_of k xs = take k xs # chunks_of k (drop k xs)"
  by (subst chunks_of.simps) simp

lemma concat_chunks_of: "0 < k \<Longrightarrow> concat (chunks_of k xs) = xs"
proof (induction k xs rule: chunks_of.induct)
  case (1 k xs)
  show ?case
  proof (cases "xs = []")
    case True
    then show ?thesis by (simp add: chunks_of_Nil)
  next
    case False
    have step: "chunks_of k xs = take k xs # chunks_of k (drop k xs)"
      by (rule chunks_of_step [OF "1.prems" False])
    have "concat (chunks_of k (drop k xs)) = drop k xs"
      using "1.IH" "1.prems" False by simp
    then show ?thesis by (simp add: step)
  qed
qed

lemma chunks_of_bounds: "0 < k \<Longrightarrow> c \<in> set (chunks_of k xs) \<Longrightarrow> c \<noteq> [] \<and> length c \<le> k"
proof (induction k xs rule: chunks_of.induct)
  case (1 k xs)
  show ?case
  proof (cases "xs = []")
    case True
    with "1.prems" show ?thesis by (simp add: chunks_of_Nil)
  next
    case False
    have step: "chunks_of k xs = take k xs # chunks_of k (drop k xs)"
      by (rule chunks_of_step [OF "1.prems"(1) False])
    from "1.prems"(2) step
    consider "c = take k xs" | "c \<in> set (chunks_of k (drop k xs))" by auto
    then show ?thesis
    proof cases
      case 1
      with False "1.prems"(1) show ?thesis by simp
    next
      case 2
      with "1.IH" "1.prems"(1) False show ?thesis by simp
    qed
  qed
qed

lemma ceil_div_Suc: "0 < (k::nat) \<Longrightarrow> (Suc m + k - 1) div k = Suc (m div k)"
  using div_add_self2 [of k m] by simp

lemma ceil_div_small: "0 < (n::nat) \<Longrightarrow> n \<le> k \<Longrightarrow> (n + k - 1) div k = 1"
proof -
  assume n: "0 < n" and nk: "n \<le> k"
  from n obtain m where m: "n = Suc m" by (cases n) auto
  with nk have "m < k" by simp
  then have "m div k = 0" by (rule div_less)
  moreover have "(Suc m + k - 1) div k = Suc (m div k)"
    using nk m by (intro ceil_div_Suc) simp
  ultimately show ?thesis unfolding m by (simp only: One_nat_def)
qed

lemma ceil_div_step: "0 < (k::nat) \<Longrightarrow> k < n \<Longrightarrow> (n + k - 1) div k = Suc ((n - k + k - 1) div k)"
proof -
  assume k: "0 < k" and n: "k < n"
  from n obtain m where m: "n = Suc m + k" by (metis add.commute less_imp_Suc_add add_Suc_right add_Suc)
  have "(Suc (m + k) + k - 1) div k = Suc ((m + k) div k)"
    by (rule ceil_div_Suc [OF k])
  moreover have "(Suc m + k - 1) div k = Suc (m div k)"
    by (rule ceil_div_Suc [OF k])
  moreover have "(m + k) div k = Suc (m div k)" using k div_add_self2 [of k m] by simp
  moreover have "n - k + k - 1 = Suc m + k - 1" unfolding m by (simp only: add_diff_cancel_right')
  moreover have "n + k - 1 = Suc (m + k) + k - 1" unfolding m by (simp only: add_Suc)
  ultimately show ?thesis by (simp only:)
qed

lemma length_chunks_of: "0 < k \<Longrightarrow> length (chunks_of k xs) = (length xs + k - 1) div k"
proof (induction k xs rule: chunks_of.induct)
  case (1 k xs)
  show ?case
  proof (cases "xs = []")
    case True
    have "(k - 1) div k = 0" using "1.prems" by simp
    with True show ?thesis by (simp add: chunks_of_Nil)
  next
    case False
    have step: "chunks_of k xs = take k xs # chunks_of k (drop k xs)"
      by (rule chunks_of_step [OF "1.prems" False])
    have ih: "length (chunks_of k (drop k xs)) = (length (drop k xs) + k - 1) div k"
      using "1.IH" "1.prems" False by simp
    show ?thesis
    proof (cases "length xs \<le> k")
      case True
      with False have c: "(length xs + k - 1) div k = 1"
        by (intro ceil_div_small) simp_all
      from True have "drop k xs = []" by simp
      then have "length (chunks_of k xs) = 1" by (simp add: step chunks_of_Nil)
      with c show ?thesis by simp
    next
      case gt: False
      then have c: "(length xs + k - 1) div k = Suc ((length xs - k + k - 1) div k)"
        using "1.prems" by (intro ceil_div_step) simp_all
      have "length (chunks_of k xs) = Suc ((length xs - k + k - 1) div k)"
        using ih by (simp add: step)
      with c show ?thesis by simp
    qed
  qed
qed


lemma object_Read_empty:
  "obj_data reader = [] \<Longrightarrow> obj_fault reader = None \<Longrightarrow>
   object_Read reader k = ([], ReadEOF, reader)"
  by (simp add: object_Read_def)

lemma object_Read_data:
  "obj_data reader \<noteq> [] \<Longrightarrow> obj_fault reader = None \<Longrightarrow>
   object_Read reader k =
     (take k (obj_data reader),
      (if drop k (obj_data reader) = [] \<and>
          eof_now (obj_eof reader) (length (take k (obj_data reader))) k
       then ReadEOF else ReadOk),
      reader\<lparr>obj_data := drop k (obj_data reader)\<rparr>)"
  by (simp add: object_Read_def Let_def)

lemma stream_chunks_all:
  assumes "\<forall>k. send_err e k = None" and "obj_fault reader = None"
  shows "stream_chunks e reader sent =
           (sent @ map RespChunk (chunks_of buffer_size (obj_data reader)), None)"
  using assms(2)
proof (induction "length (obj_data reader)" arbitrary: reader sent rule: less_induct)
  case less
  have k: "0 < buffer_size" by (simp add: buffer_size_def)
  show ?case
  proof (cases "obj_data reader = []")
    case True
    have "stream_chunks e reader sent = (sent, None)"
      by (subst stream_chunks.simps) (simp add: object_Read_empty [OF True less.prems])
    with True show ?thesis by (simp add: chunks_of_Nil)
  next
    case False
    let ?chunk = "take buffer_size (obj_data reader)"
    let ?rest = "drop buffer_size (obj_data reader)"
    let ?reader' = "reader\<lparr>obj_data := ?rest\<rparr>"
    have chunk: "0 < length ?chunk" using False k by simp
    have send: "stream_Send e sent (RespChunk ?chunk) = Inr (sent @ [RespChunk ?chunk])"
      using assms(1) by (simp add: stream_Send_def)
    have step: "chunks_of buffer_size (obj_data reader) = ?chunk # chunks_of buffer_size ?rest"
      by (rule chunks_of_step [OF k False])
    have smaller: "length (obj_data ?reader') < length (obj_data reader)"
      using False k by simp
    have ih: "stream_chunks e ?reader' (sent @ [RespChunk ?chunk]) =
                ((sent @ [RespChunk ?chunk]) @ map RespChunk (chunks_of buffer_size ?rest), None)"
      using less.hyps [OF smaller] less.prems by simp
    show ?thesis
    proof (cases "?rest = [] \<and> eof_now (obj_eof reader) (length ?chunk) buffer_size")
      case True
      then have rd: "object_Read reader buffer_size = (?chunk, ReadEOF, ?reader')"
        by (auto simp add: object_Read_data [OF False less.prems] min_def)
      have "stream_chunks e reader sent = (sent @ [RespChunk ?chunk], None)"
        by (subst stream_chunks.simps) (simp add: rd send chunk del: length_take length_greater_0_conv)
      moreover from True have "chunks_of buffer_size ?rest = []" by (simp add: chunks_of_Nil)
      ultimately show ?thesis by (simp add: step)
    next
      case notyet: False
      then have rd: "object_Read reader buffer_size = (?chunk, ReadOk, ?reader')"
        by (auto simp add: object_Read_data [OF False less.prems] min_def)
      have "stream_chunks e reader sent = stream_chunks e ?reader' (sent @ [RespChunk ?chunk])"
        by (subst stream_chunks.simps) (simp add: rd send chunk del: length_take length_greater_0_conv)
      with ih show ?thesis by (simp add: step)
    qed
  qed
qed

text \<open>
  C3: for a stored object that the storage adapter opens and that is read without a fault,
  on a transport that accepts every frame, DownloadStream sends one metadata frame
  carrying the requested path, then chunk frames only: their number is the length of the
  object divided by 32768 and rounded up, each holds at least one and at most 32768
  bytes (so no empty frame follows the end of the stream), and their payloads joined in
  order are the bytes of the object. This holds for every length, the positive ones in
  particular, and whenever the read handle reports the end of the stream.
\<close>

theorem DownloadStream_chunking:
  assumes "MinioStorage_Download e w p = (w1, Inr obj)"
      and "obj_fault obj = None"
      and "\<forall>k. send_err e k = None"
  shows "\<exists>chunks.
           snd (MediaHandler_DownloadStream e w p) =
             (RespMetadata \<lparr>md_FileName = p, md_FileSize = 0, md_ContentType = []\<rparr> #
              map RespChunk chunks, None) \<and>
           length chunks = (length (obj_data obj) + 32768 - 1) div 32768 \<and>
           (\<forall>c \<in> set chunks. c \<noteq> [] \<and> length c \<le> 32768) \<and>
           concat chunks = obj_data obj"
proof -
  have k: "0 < buffer_size" and k32: "buffer_size = 32768" by (simp_all add: buffer_size_def)
  let ?chunks = "chunks_of buffer_size (obj_data obj)"
  have send: "stream_Send e []
                (RespMetadata \<lparr>md_FileName = p, md_FileSize = 0, md_ContentType = []\<rparr>) =
              Inr [RespMetadata \<lparr>md_FileName = p, md_FileSize = 0, md_ContentType = []\<rparr>]"
    using assms(3) by (simp add: stream_Send_def)
  have "snd (MediaHandler_DownloadStream e w p) =
          (RespMetadata \<lparr>md_FileName = p, md_FileSize = 0, md_ContentType = []\<rparr> #
           map RespChunk ?chunks, None)"
    using assms(1) send stream_chunks_all [OF assms(3) assms(2)]
    by (simp add: MediaHandler_DownloadStream_def MediaService_DownloadFile_def)
  moreover have "length ?chunks = (length (obj_data obj) + 32768 - 1) div 32768"
    using length_chunks_of [OF k, of "obj_data obj"] by (simp only: k32)
  moreover have "\<forall>c \<in> set ?chunks. c \<noteq> [] \<and> length c \<le> 32768"
    using chunks_of_bounds [OF k, of _ "obj_data obj"] by (auto simp only: k32)
  moreover have "concat ?chunks = obj_data obj"
    by (rule concat_chunks_of [OF k])
  ultimately show ?thesis by blast
qed


lemma example_download:
  "MinioStorage_Download example_env example_world ''2024/01/01/abc.png'' =
     (\<lparr>uuid_draws = 0, clock_reads = 0,
        calls = [GetObject ''media'' ''2024/01/01/abc.png'',
                 StatObject ''media'' ''2024/01/01/abc.png'']\<rparr>, Inr example_object)"
  "MinioStorage_Download example_env example_world ''2024/01/01/big.bin'' =
     (\<lparr>uuid_draws = 0, clock_reads = 0,
        calls = [GetObject ''media'' ''2024/01/01/big.bin'',
                 StatObject ''media'' ''2024/01/01/big.bin'']\<rparr>, Inr big_object)"
  by (simp_all add: MinioStorage_Download_def example_env_def example_world_def log_call_def
        example_object_def big_object_def)

theorem DownloadStream_chunking_witness:
  "obj_fault example_object = None \<and>
   (\<forall>k. send_err example_env k = None) \<and>
   snd (MediaHandler_DownloadStream example_env example_world ''2024/01/01/abc.png'') =
     ([RespMetadata \<lparr>md_FileName = ''2024/01/01/abc.png'', md_FileSize = 0, md_ContentType = []\<rparr>,
       RespChunk [0x68, 0x65, 0x6c, 0x6c, 0x6f]], None) \<and>
   obj_fault big_object = None \<and>
   length (obj_data big_object) = 70000 \<and>
   (\<exists>chunks.
      snd (MediaHandler_DownloadStream example_env example_world ''2024/01/01/big.bin'') =
        (RespMetadata \<lparr>md_FileName = ''2024/01/01/big.bin'', md_FileSize = 0, md_ContentType = []\<rparr> #
         map RespChunk chunks, None) \<and>
      length chunks = 3 \<and> concat chunks = obj_data big_object)"
proof -
  have f1: "obj_fault example_object = None" by (simp add: example_object_def)
  have f2: "obj_fault big_object = None" by (simp add: big_object_def)
  have s: "\<forall>k. send_err example_env k = None" by (simp add: example_env_def)
  have len: "length (obj_data big_object) = 70000" by (simp add: big_object_def)
  have data: "obj_data example_object = [0x68, 0x65, 0x6c, 0x6c, 0x6f]"
    by (simp add: example_object_def)
  from DownloadStream_chunking [OF example_download(1) f1 s]
  obtain chunks where
    fr: "snd (MediaHandler_DownloadStream example_env example_world ''2024/01/01/abc.png'') =
          (RespMetadata \<lparr>md_FileName = ''2024/01/01/abc.png'', md_FileSize = 0, md_ContentType = []\<rparr> #
           map RespChunk chunks, None)"
    and n: "length chunks = (length (obj_data example_object) + 32768 - 1) div 32768"
    and c: "concat chunks = obj_data example_object"
    by blast
  from n have "length chunks = 1" by (simp add: data)
  then obtain x where "chunks = [x]" by (cases chunks) auto
  with c data have "chunks = [[0x68, 0x65, 0x6c, 0x6c, 0x6f]]" by simp
  with fr have small:
    "snd (MediaHandler_DownloadStream example_env example_world ''2024/01/01/abc.png'') =
     ([RespMetadata \<lparr>md_FileName = ''2024/01/01/abc.png'', md_FileSize = 0, md_ContentType = []\<rparr>,
       RespChunk [0x68, 0x65, 0x6c, 0x6c, 0x6f]], None)" by simp
  from DownloadStream_chunking [OF example_download(2) f2 s]
  obtain chunks' where
    fr': "snd (MediaHandler_DownloadStream example_env example_world ''2024/01/01/big.bin'') =
          (RespMetadata \<lparr>md_FileName = ''2024/01/01/big.bin'', md_FileSize = 0, md_ContentType = []\<rparr> #
           map RespChunk chunks', None)"
    and n': "length chunks' = (length (obj_data big_object) + 32768 - 1) div 32768"
    and c': "concat chunks' = obj_data big_object"
    by blast
  from n' have "length chunks' = 3" by (simp add: len)
  with fr' c' have big: "\<exists>chunks.
      snd (MediaHandler_DownloadStream example_env example_world ''2024/01/01/big.bin'') =
        (RespMetadata \<lparr>md_FileName = ''2024/01/01/big.bin'', md_FileSize = 0, md_ContentType = []\<rparr> #
         map RespChunk chunks, None) \<and>
      length chunks = 3 \<and> concat chunks = obj_data big_object" by blast
  from f1 f2 s len small big show ?thesis by blast
qed

subsection \<open>Path policy\<close>

lemma ext_scan_eq:
  "ext_scan xs suf =
     (if CHR ''.'' \<in> set (takeWhile (\<lambda>c. c \<noteq> CHR ''/'') xs)
      then CHR ''.'' # rev (takeWhile (\<lambda>c. c \<noteq> CHR ''.'') (takeWhile (\<lambda>c. c \<noteq> CHR ''/'') xs)) @ suf
      else [])"
  by (induction xs arbitrary: suf) auto

lemma filepath_Ext_base: "filepath_Ext f = spec_ext (base_name f)"
  by (simp add: filepath_Ext_def ext_scan_eq spec_ext_def base_name_def)

lemma base_name_no_slash:
  assumes "CHR ''/'' \<notin> set f"
  shows "base_name f = f"
proof -
  from assms have tw: "takeWhile (\<lambda>c. c \<noteq> CHR ''/'') (rev f) = rev f"
    by (auto simp: takeWhile_eq_all_conv)
  show ?thesis unfolding base_name_def tw by (rule rev_rev_ident)
qed

lemma GenerateKey_eq:
  "GenerateKey e w f =
     (format_date (clock e (clock_reads w)) @ ''/'' @ uuid_String (uuid_src e (uuid_draws w)) @
        filepath_Ext f,
      w\<lparr>uuid_draws := Suc (uuid_draws w), clock_reads := Suc (clock_reads w)\<rparr>)"
  by (simp add: GenerateKey_def uuid_NewString_def time_Now_def Let_def)

lemma length_hex_Encode: "length (hex_Encode xs) = 2 * length xs"
  by (induction xs) auto

lemma length_uuid_String: "length u = 16 \<Longrightarrow> length (uuid_String u) = 36"
  by (simp add: uuid_String_def length_hex_Encode)

lemma length_decimal: "n < 10 ^ Suc k \<Longrightarrow> length (decimal n) \<le> Suc k"
proof (induction k arbitrary: n)
  case 0
  then show ?case by (subst decimal.simps) simp
next
  case (Suc k)
  show ?case
  proof (cases "n < 10")
    case True
    then show ?thesis by (subst decimal.simps) simp
  next
    case False
    from Suc.prems have "n div 10 < 10 ^ Suc k" by (simp add: less_mult_imp_div_less)
    then have "length (decimal (n div 10)) \<le> Suc k" by (rule Suc.IH)
    with False show ?thesis by (subst decimal.simps) simp
  qed
qed

lemma length_zero_pad_4:
  assumes "n < 10000"
  shows "length (zero_pad 4 n) = 4"
proof -
  note assms
  moreover have "(10::nat) ^ Suc 3 = 10000" by simp
  ultimately have "length (decimal n) \<le> Suc 3" using length_decimal [of n 3] by simp
  then show ?thesis by (simp add: zero_pad_def)
qed

lemma length_zero_pad_2:
  assumes "n < 100"
  shows "length (zero_pad 2 n) = 2"
proof -
  note assms
  moreover have "(10::nat) ^ Suc 1 = 100" by simp
  ultimately have "length (decimal n) \<le> Suc 1" using length_decimal [of n 1] by simp
  then show ?thesis by (simp add: zero_pad_def)
qed

lemma length_format_date:
  assumes "t_year t < 10000" "t_month t < 100" "t_day t < 100"
  shows "length (format_date t) = 10"
  using assms by (simp add: format_date_def length_zero_pad_4 length_zero_pad_2)


lemma example_key_parts:
  "format_date (clock example_env 0) = ''2024/01/01''"
  "uuid_String (uuid_src example_env 0) = ''00000000-0000-4000-8000-000000000000''"
  "uuid_String (uuid_src example_env 1) = ''00000000-0000-4000-8000-000000000001''"
  "uuid_String (uuid_src example_env 2) = ''00000000-0000-4000-8000-000000000002''"
  by (simp_all add: example_env_def format_date_def zero_pad_def decimal.simps digit_def
        uuid_String_def hexdigit_def)

lemma filepath_Ext_examples:
  "filepath_Ext ''report.pdf'' = ''.pdf''"
  "filepath_Ext ''noext'' = []"
  "filepath_Ext ''archive.d/readme'' = []"
  "filepath_Ext ''archive.tar.gz'' = ''.gz''"
  by (simp_all add: filepath_Ext_def)

text \<open>
  C4, as amended: for every original file name the generated key is the date of the clock
  reading in the layout year/month/day, a slash, the canonical string of the identifier
  drawn, and the extension; the date has ten characters for a year below 10000 and the
  identifier string 36 for an identifier of 16 bytes. The extension is the substring from
  the last dot of the last path element of the name (what follows its last slash) to the
  end, or nothing when that element has no dot; for a name without a slash this is the
  substring from the last dot of the name. The key for report.pdf ends in .pdf and the
  one for noext has no extension.
\<close>

theorem GenerateKey_form:
  "fst (GenerateKey e w f) =
     format_date (clock e (clock_reads w)) @ ''/'' @
     uuid_String (uuid_src e (uuid_draws w)) @ filepath_Ext f \<and>
   filepath_Ext f = spec_ext (base_name f) \<and>
   (CHR ''/'' \<notin> set f \<longrightarrow> filepath_Ext f = spec_ext f) \<and>
   (t_year (clock e (clock_reads w)) < 10000 \<and> t_month (clock e (clock_reads w)) < 100 \<and>
    t_day (clock e (clock_reads w)) < 100 \<longrightarrow>
      length (format_date (clock e (clock_reads w))) = 10) \<and>
   (length (uuid_src e (uuid_draws w)) = 16 \<longrightarrow>
      length (uuid_String (uuid_src e (uuid_draws w))) = 36) \<and>
   filepath_Ext ''report.pdf'' = ''.pdf'' \<and>
   filepath_Ext ''noext'' = []"
  using filepath_Ext_base [of f] base_name_no_slash [of f]
  by (simp add: GenerateKey_eq length_format_date length_uuid_String filepath_Ext_examples)

theorem GenerateKey_form_witness:
  "CHR ''/'' \<notin> set ''report.pdf'' \<and>
   t_year (clock example_env (clock_reads example_world)) < 10000 \<and>
   t_month (clock example_env (clock_reads example_world)) < 100 \<and>
   t_day (clock example_env (clock_reads example_world)) < 100 \<and>
   length (uuid_src example_env (uuid_draws example_world)) = 16 \<and>
   fst (GenerateKey example_env example_world ''report.pdf'') =
     ''2024/01/01/00000000-0000-4000-8000-000000000000.pdf'' \<and>
   spec_ext ''report.pdf'' = ''.pdf'' \<and>
   length (format_date (clock example_env (clock_reads example_world))) = 10 \<and>
   length (uuid_String (uuid_src example_env (uuid_draws example_world))) = 36"
proof -
  have w0: "clock_reads example_world = 0" "uuid_draws example_world = 0"
    by (simp_all add: example_world_def)
  have h: "CHR ''/'' \<notin> set ''report.pdf''"
    "t_year (clock example_env 0) < 10000" "t_month (clock example_env 0) < 100"
    "t_day (clock example_env 0) < 100" "length (uuid_src example_env 0) = 16"
    by (simp_all add: example_env_def)
  have s: "spec_ext ''report.pdf'' = ''.pdf''" by (simp add: spec_ext_def)
  from GenerateKey_form [of example_env example_world "''report.pdf''"] h s
  show ?thesis by (simp add: w0 example_key_parts filepath_Ext_examples)
qed

text \<open>
  C4 as it was stated fails for a name with a dot before its last slash: the
  specification's wording gives archive.d/readme the extension .d/readme, the code gives
  it none.
\<close>

theorem GenerateKey_ext_counterexample:
  "spec_ext ''archive.d/readme'' = ''.d/readme'' \<and>
   fst (GenerateKey example_env example_world ''archive.d/readme'') =
     ''2024/01/01/00000000-0000-4000-8000-000000000000'' \<and>
   fst (GenerateKey example_env example_world ''archive.d/readme'') \<noteq>
     format_date (clock example_env (clock_reads example_world)) @ ''/'' @
     uuid_String (uuid_src example_env (uuid_draws example_world)) @
     spec_ext ''archive.d/readme''"
proof -
  have w0: "clock_reads example_world = 0" "uuid_draws example_world = 0"
    by (simp_all add: example_world_def)
  have s: "spec_ext ''archive.d/readme'' = ''.d/readme''" by (simp add: spec_ext_def)
  show ?thesis
    by (simp add: GenerateKey_eq w0 example_key_parts filepath_Ext_examples s)
qed

subsection \<open>Uniqueness of keys\<close>

lemma hexdigit_inj:
  assumes "a < 16" "b < 16" "hexdigit a = hexdigit b"
  shows "a = b"
proof -
  have d: "distinct ''0123456789abcdef''" by simp
  have l: "length ''0123456789abcdef'' = 16" by simp
  from assms show ?thesis
    using nth_eq_iff_index_eq [OF d, of a b] by (simp only: hexdigit_def l)
qed

lemma hexdigit_no_slash: "a < 16 \<Longrightarrow> hexdigit a \<noteq> CHR ''/''"
proof -
  assume "a < 16"
  then have "hexdigit a \<in> set ''0123456789abcdef''"
    unfolding hexdigit_def by (intro nth_mem) simp
  then show ?thesis by auto
qed

lemma byte_nibbles: "unat (v :: byte) div 16 < 16" "unat v mod 16 < 16"
proof -
  have "unat v < 2 ^ LENGTH(8)" by (rule unsigned_less)
  then have "unat v < 256" by simp
  then show "unat v div 16 < 16" by simp
  show "unat v mod 16 < 16" by simp
qed

lemma hex_byte_inj:
  assumes "hexdigit (unat (v :: byte) div 16) = hexdigit (unat (u :: byte) div 16)"
      and "hexdigit (unat v mod 16) = hexdigit (unat u mod 16)"
  shows "v = u"
proof -
  have "unat v div 16 = unat u div 16"
    using assms(1) by (intro hexdigit_inj byte_nibbles)
  moreover have "unat v mod 16 = unat u mod 16"
    using assms(2) by (intro hexdigit_inj byte_nibbles)
  ultimately have "unat v = unat u"
    by (metis div_mult_mod_eq)
  then show ?thesis by (simp add: word_unat_eq_iff)
qed

lemma hex_Encode_inj:
  "length xs = length ys \<Longrightarrow> hex_Encode xs = hex_Encode ys \<Longrightarrow> xs = ys"
proof (induction xs ys rule: list_induct2)
  case Nil
  then show ?case by simp
next
  case (Cons x xs y ys)
  then show ?case by (auto dest: hex_byte_inj)
qed

lemma hex_Encode_no_slash: "CHR ''/'' \<notin> set (hex_Encode xs)"
proof (induction xs)
  case Nil
  show ?case by simp
next
  case (Cons v vs)
  have "hexdigit (unat v div 16) \<noteq> CHR ''/''" "hexdigit (unat v mod 16) \<noteq> CHR ''/''"
    by (intro hexdigit_no_slash byte_nibbles)+
  with Cons show ?case by auto
qed

lemma uuid_String_no_slash: "CHR ''/'' \<notin> set (uuid_String u)"
  by (simp add: uuid_String_def hex_Encode_no_slash)

lemma ext_scan_no_slash:
  "CHR ''/'' \<notin> set suf \<Longrightarrow> CHR ''/'' \<notin> set (ext_scan xs suf)"
  by (induction xs arbitrary: suf) auto

lemma filepath_Ext_no_slash: "CHR ''/'' \<notin> set (filepath_Ext f)"
  by (simp add: filepath_Ext_def ext_scan_no_slash)

lemma uuid_String_inj:
  assumes "length u = 16" "length v = 16" "uuid_String u = uuid_String v"
  shows "u = v"
proof -
  have parts: "\<And>x :: bytes. x = take 4 x @ take 2 (drop 4 x) @ take 2 (drop 6 x) @
                  take 2 (drop 8 x) @ drop 10 x"
  proof -
    fix x :: bytes
    have "x = take 4 x @ drop 4 x" by simp
    also have "drop 4 x = take 2 (drop 4 x) @ drop 6 x"
      using append_take_drop_id [of 2 "drop 4 x"] by simp
    also have "drop 6 x = take 2 (drop 6 x) @ drop 8 x"
      using append_take_drop_id [of 2 "drop 6 x"] by simp
    also have "drop 8 x = take 2 (drop 8 x) @ drop 10 x"
      using append_take_drop_id [of 2 "drop 8 x"] by simp
    finally show "x = take 4 x @ take 2 (drop 4 x) @ take 2 (drop 6 x) @
                  take 2 (drop 8 x) @ drop 10 x" .
  qed
  from assms have
    "hex_Encode (take 4 u) = hex_Encode (take 4 v) \<and>
     hex_Encode (take 2 (drop 4 u)) = hex_Encode (take 2 (drop 4 v)) \<and>
     hex_Encode (take 2 (drop 6 u)) = hex_Encode (take 2 (drop 6 v)) \<and>
     hex_Encode (take 2 (drop 8 u)) = hex_Encode (take 2 (drop 8 v)) \<and>
     hex_Encode (drop 10 u) = hex_Encode (drop 10 v)"
    by (simp add: uuid_String_def length_hex_Encode)
  with assms(1,2) have
    "take 4 u = take 4 v \<and> take 2 (drop 4 u) = take 2 (drop 4 v) \<and>
     take 2 (drop 6 u) = take 2 (drop 6 v) \<and> take 2 (drop 8 u) = take 2 (drop 8 v) \<and>
     drop 10 u = drop 10 v"
    by (auto intro!: hex_Encode_inj)
  then show ?thesis using parts [of u] parts [of v] by simp
qed

lemma key_eq_uuid:
  assumes "d1 @ ''/'' @ u1 @ x1 = d2 @ ''/'' @ u2 @ x2"
      and "CHR ''/'' \<notin> set (u1 @ x1)" and "CHR ''/'' \<notin> set (u2 @ x2)"
      and "length u1 = length (u2 :: string)"
  shows "u1 = u2"
proof -
  let ?P = "\<lambda>c. c \<noteq> CHR ''/''"
  have tw: "\<And>d s. CHR ''/'' \<notin> set s \<Longrightarrow> takeWhile ?P (rev (d @ ''/'' @ s)) = rev s"
  proof -
    fix d s :: string
    assume "CHR ''/'' \<notin> set s"
    then have "takeWhile ?P (rev s @ CHR ''/'' # rev d) = rev s"
      by (auto simp: takeWhile_tail)
    then show "takeWhile ?P (rev (d @ ''/'' @ s)) = rev s" by simp
  qed
  have "takeWhile ?P (rev (d1 @ ''/'' @ (u1 @ x1))) = takeWhile ?P (rev (d2 @ ''/'' @ (u2 @ x2)))"
    using assms(1) by simp
  then have "rev (u1 @ x1) = rev (u2 @ x2)"
    using tw [OF assms(2), of d1] tw [OF assms(3), of d2] by simp
  then have "u1 @ x1 = u2 @ x2" by (simp only: rev_is_rev_conv)
  with assms(4) show ?thesis by simp
qed


lemma Upload_world:
  "fst (MinioStorage_Upload e w f sz body ct) =
     w\<lparr>uuid_draws := Suc (uuid_draws w), clock_reads := Suc (clock_reads w),
       calls := calls w @
         [PutObject (bucketName e)
            (format_date (clock e (clock_reads w)) @ ''/'' @
             uuid_String (uuid_src e (uuid_draws w)) @ filepath_Ext f)
            (observe (put_reading e sz) body) sz ct]\<rparr>"
  by (auto simp add: MinioStorage_Upload_def GenerateKey_eq log_call_def Let_def
        split: option.splits)

lemma put_keys_append: "put_keys (cs @ ds) = put_keys cs @ put_keys ds"
  by (induction cs rule: put_keys.induct) auto

lemma uploads_keys:
  assumes "\<forall>i < length rs. length (uuid_src e (uuid_draws w + i)) = 16"
      and "\<forall>i < length rs. \<forall>j < length rs. i \<noteq> j \<longrightarrow>
             uuid_src e (uuid_draws w + i) \<noteq> uuid_src e (uuid_draws w + j)"
  shows "\<exists>keys. put_keys (calls (uploads e w rs)) = put_keys (calls w) @ keys \<and>
           length keys = length rs \<and> distinct keys \<and>
           (\<forall>k \<in> set keys. \<exists>i < length rs. \<exists>d x.
              k = d @ ''/'' @ uuid_String (uuid_src e (uuid_draws w + i)) @ x \<and>
              CHR ''/'' \<notin> set x)"
  using assms
proof (induction rs arbitrary: w)
  case Nil
  show ?case by simp
next
  case (Cons r rs)
  obtain f sz body ct where r: "r = (f, sz, body, ct)" by (cases r)
  let ?k0 = "format_date (clock e (clock_reads w)) @ ''/'' @
             uuid_String (uuid_src e (uuid_draws w)) @ filepath_Ext f"
  let ?w1 = "fst (MinioStorage_Upload e w f sz body ct)"
  have w1: "uuid_draws ?w1 = Suc (uuid_draws w)"
    "calls ?w1 = calls w @ [PutObject (bucketName e) ?k0 (observe (put_reading e sz) body) sz ct]"
    by (simp_all add: Upload_world)
  have len1: "\<forall>i < length rs. length (uuid_src e (uuid_draws ?w1 + i)) = 16"
  proof (intro allI impI)
    fix i assume "i < length rs"
    then have "Suc i < length (r # rs)" by simp
    with Cons.prems(1) have "length (uuid_src e (uuid_draws w + Suc i)) = 16" by blast
    then show "length (uuid_src e (uuid_draws ?w1 + i)) = 16" by (simp add: w1)
  qed
  have fresh1: "\<forall>i < length rs. \<forall>j < length rs. i \<noteq> j \<longrightarrow>
             uuid_src e (uuid_draws ?w1 + i) \<noteq> uuid_src e (uuid_draws ?w1 + j)"
  proof (intro allI impI)
    fix i j assume "i < length rs" "j < length rs" "i \<noteq> j"
    then have "Suc i < length (r # rs)" "Suc j < length (r # rs)" "Suc i \<noteq> Suc j" by simp_all
    with Cons.prems(2) have
      "uuid_src e (uuid_draws w + Suc i) \<noteq> uuid_src e (uuid_draws w + Suc j)" by blast
    then show "uuid_src e (uuid_draws ?w1 + i) \<noteq> uuid_src e (uuid_draws ?w1 + j)"
      by (simp add: w1)
  qed
  from Cons.IH [OF len1 fresh1] obtain keys where
    k1: "put_keys (calls (uploads e ?w1 rs)) = put_keys (calls ?w1) @ keys"
    and k2: "length keys = length rs" and k3: "distinct keys"
    and k4: "\<forall>k \<in> set keys. \<exists>i < length rs. \<exists>d x.
              k = d @ ''/'' @ uuid_String (uuid_src e (uuid_draws ?w1 + i)) @ x \<and>
              CHR ''/'' \<notin> set x"
    by blast
  have new: "?k0 \<notin> set keys"
  proof
    assume "?k0 \<in> set keys"
    with k4 obtain i d x where i: "i < length rs"
      and eq: "?k0 = d @ ''/'' @ uuid_String (uuid_src e (uuid_draws ?w1 + i)) @ x"
      and x: "CHR ''/'' \<notin> set x" by blast
    have l0: "length (uuid_src e (uuid_draws w)) = 16"
      using Cons.prems(1) by (metis add.right_neutral length_Cons zero_less_Suc)
    have li: "length (uuid_src e (uuid_draws w + Suc i)) = 16"
      using Cons.prems(1) i by (metis length_Cons Suc_less_eq)
    have "uuid_String (uuid_src e (uuid_draws w)) =
          uuid_String (uuid_src e (uuid_draws w + Suc i))"
    proof (rule key_eq_uuid)
      show "format_date (clock e (clock_reads w)) @ ''/'' @
              uuid_String (uuid_src e (uuid_draws w)) @ filepath_Ext f =
            d @ ''/'' @ uuid_String (uuid_src e (uuid_draws w + Suc i)) @ x"
        using eq by (simp add: w1)
      show "CHR ''/'' \<notin> set (uuid_String (uuid_src e (uuid_draws w)) @ filepath_Ext f)"
        by (simp add: uuid_String_no_slash filepath_Ext_no_slash)
      show "CHR ''/'' \<notin> set (uuid_String (uuid_src e (uuid_draws w + Suc i)) @ x)"
        using x by (simp add: uuid_String_no_slash)
      show "length (uuid_String (uuid_src e (uuid_draws w))) =
            length (uuid_String (uuid_src e (uuid_draws w + Suc i)))"
        using length_uuid_String [OF l0] length_uuid_String [OF li] by simp
    qed
    then have "uuid_src e (uuid_draws w) = uuid_src e (uuid_draws w + Suc i)"
      by (rule uuid_String_inj [OF l0 li])
    moreover have "uuid_src e (uuid_draws w + 0) \<noteq> uuid_src e (uuid_draws w + Suc i)"
      using Cons.prems(2) i by (metis length_Cons Suc_less_eq zero_less_Suc nat.distinct(1))
    ultimately show False by simp
  qed
  let ?keys = "?k0 # keys"
  have "put_keys (calls (uploads e w (r # rs))) = put_keys (calls w) @ ?keys"
    using k1 by (simp add: r w1 put_keys_append)
  moreover have "length ?keys = length (r # rs)" using k2 by simp
  moreover have "distinct ?keys" using k3 new by simp
  moreover have "\<forall>k \<in> set ?keys. \<exists>i < length (r # rs). \<exists>d x.
              k = d @ ''/'' @ uuid_String (uuid_src e (uuid_draws w + i)) @ x \<and>
              CHR ''/'' \<notin> set x"
  proof
    fix k assume "k \<in> set ?keys"
    then consider "k = ?k0" | "k \<in> set keys" by auto
    then show "\<exists>i < length (r # rs). \<exists>d x.
              k = d @ ''/'' @ uuid_String (uuid_src e (uuid_draws w + i)) @ x \<and>
              CHR ''/'' \<notin> set x"
    proof cases
      case 1
      have "k = format_date (clock e (clock_reads w)) @ ''/'' @
                uuid_String (uuid_src e (uuid_draws w + 0)) @ filepath_Ext f \<and>
            CHR ''/'' \<notin> set (filepath_Ext f)"
        using 1 by (simp add: filepath_Ext_no_slash)
      moreover have "0 < length (r # rs)" by simp
      ultimately show ?thesis by blast
    next
      case 2
      with k4 obtain i d x where "i < length rs"
        "k = d @ ''/'' @ uuid_String (uuid_src e (uuid_draws ?w1 + i)) @ x"
        "CHR ''/'' \<notin> set x" by blast
      then have "Suc i < length (r # rs)"
        "k = d @ ''/'' @ uuid_String (uuid_src e (uuid_draws w + Suc i)) @ x"
        "CHR ''/'' \<notin> set x" by (simp_all add: w1)
      then show ?thesis by blast
    qed
  qed
  ultimately show ?case by blast
qed


text \<open>
  C7: when the identifiers drawn during N successive uploads are identifiers of 16 bytes
  and pairwise distinct (the identifier source yields fresh values), the N keys handed
  to the object store are pairwise distinct, whatever the file names, contents and dates
  of the uploads: the same file name and the same content for all of them in particular.
\<close>

theorem upload_keys_pairwise_distinct:
  assumes "list_all (\<lambda>u. length u = 16)
             (map (uuid_src e) [uuid_draws w ..< uuid_draws w + length rs])"
      and "distinct (map (uuid_src e) [uuid_draws w ..< uuid_draws w + length rs])"
  shows "\<exists>keys. put_keys (calls (uploads e w rs)) = put_keys (calls w) @ keys \<and>
           length keys = length rs \<and> distinct keys"
proof -
  let ?ids = "map (uuid_src e) [uuid_draws w ..< uuid_draws w + length rs]"
  have nth: "\<And>i. i < length rs \<Longrightarrow> ?ids ! i = uuid_src e (uuid_draws w + i)"
    by simp
  have len: "\<forall>i < length rs. length (uuid_src e (uuid_draws w + i)) = 16"
  proof (intro allI impI)
    fix i assume i: "i < length rs"
    then have "?ids ! i \<in> set ?ids" by (intro nth_mem) simp
    with assms(1) have "length (?ids ! i) = 16" by (simp only: list_all_iff)
    with i show "length (uuid_src e (uuid_draws w + i)) = 16" by (simp only: nth)
  qed
  have fresh: "\<forall>i < length rs. \<forall>j < length rs. i \<noteq> j \<longrightarrow>
             uuid_src e (uuid_draws w + i) \<noteq> uuid_src e (uuid_draws w + j)"
  proof (intro allI impI)
    fix i j assume ij: "i < length rs" "j < length rs" "i \<noteq> j"
    with assms(2) show "uuid_src e (uuid_draws w + i) \<noteq> uuid_src e (uuid_draws w + j)"
      by (auto simp: distinct_conv_nth)
  qed
  from uploads_keys [OF len fresh] show ?thesis by blast
qed

lemma example_uploads_keys:
  "put_keys (calls (uploads example_env example_world example_uploads)) =
     [''2024/01/01/00000000-0000-4000-8000-000000000000.jpg'',
      ''2024/01/01/00000000-0000-4000-8000-000000000001.jpg'',
      ''2024/01/01/00000000-0000-4000-8000-000000000002.jpg'']"
proof -
  have d: "\<And>n. format_date (clock example_env n) = ''2024/01/01''"
    by (simp add: example_env_def format_date_def zero_pad_def decimal.simps digit_def)
  have x: "filepath_Ext ''photo.jpg'' = ''.jpg''" by (simp add: filepath_Ext_def)
  have b: "bucketName example_env = ''media''" by (simp add: example_env_def)
  have u: "uuid_String (uuid_src example_env (Suc 0)) = ''00000000-0000-4000-8000-000000000001''"
    "uuid_String (uuid_src example_env (Suc (Suc 0))) = ''00000000-0000-4000-8000-000000000002''"
    by (simp_all add: example_env_def uuid_String_def hexdigit_def)
  show ?thesis
    by (simp add: example_uploads_def example_world_def Upload_world d x b
          example_key_parts u)
qed

theorem upload_keys_pairwise_distinct_witness:
  "list_all (\<lambda>u. length u = 16)
     (map (uuid_src example_env)
        [uuid_draws example_world ..< uuid_draws example_world + length example_uploads]) \<and>
   distinct (map (uuid_src example_env)
        [uuid_draws example_world ..< uuid_draws example_world + length example_uploads]) \<and>
   put_keys (calls (uploads example_env example_world example_uploads)) =
     [''2024/01/01/00000000-0000-4000-8000-000000000000.jpg'',
      ''2024/01/01/00000000-0000-4000-8000-000000000001.jpg'',
      ''2024/01/01/00000000-0000-4000-8000-000000000002.jpg''] \<and>
   distinct (put_keys (calls (uploads example_env example_world example_uploads)))"
proof -
  have upt: "[uuid_draws example_world ..< uuid_draws example_world + length example_uploads] =
             [0, 1, 2]"
    by (simp add: example_world_def example_uploads_def upt_rec)
  have h1: "list_all (\<lambda>u. length u = 16)
     (map (uuid_src example_env)
        [uuid_draws example_world ..< uuid_draws example_world + length example_uploads])"
    unfolding upt by (simp add: example_env_def)
  have h2: "distinct (map (uuid_src example_env)
        [uuid_draws example_world ..< uuid_draws example_world + length example_uploads])"
    unfolding upt by (simp add: example_env_def)
  from upload_keys_pairwise_distinct [OF h1 h2]
  have "distinct (put_keys (calls (uploads example_env example_world example_uploads)))"
    by (auto simp: example_world_def)
  with h1 h2 example_uploads_keys show ?thesis by simp
qed

subsection \<open>The declared size of a streamed upload\<close>

lemma recv_chunks_read_to_end:
  "recv_chunks ReadsAll (map (Recv \<circ> ReqChunk) cs) written tot =
     Drained (written @ concat cs) (tot + int (length (concat cs)))"
  by (induction cs arbitrary: written tot) (auto simp: pipe_Write_def)

lemma UploadStream_read_to_end:
  assumes "put_reading e (md_FileSize m) = ReadsAll"
  shows "calls (fst (MediaHandler_UploadStream e w
                      (Recv (ReqMetadata m) # map (Recv \<circ> ReqChunk) cs))) =
           calls w @ [PutObject (bucketName e) (fst (GenerateKey e w (md_FileName m)))
                        (concat cs, None) (md_FileSize m) (md_ContentType m)]"
proof -
  let ?up = "MinioStorage_Upload e w (md_FileName m) (md_FileSize m) (concat cs, None)
               (md_ContentType m)"
  have loop: "recv_chunks (put_reading e (md_FileSize m)) (map (Recv \<circ> ReqChunk) cs) [] 0 =
                Drained (concat cs) (int (length (concat cs)))"
    using recv_chunks_read_to_end [of cs "[]" 0] assms by simp
  obtain w1 r where up: "?up = (w1, r)" by (cases ?up)
  have "calls w1 = calls w @ [PutObject (bucketName e) (fst (GenerateKey e w (md_FileName m)))
                        (concat cs, None) (md_FileSize m) (md_ContentType m)]"
    using MinioStorage_Upload_calls [of e w "md_FileName m" "md_FileSize m" "(concat cs, None)"
        "md_ContentType m"] up assms
    by (simp add: observe_def)
  moreover have "calls (fst (MediaHandler_UploadStream e w
                      (Recv (ReqMetadata m) # map (Recv \<circ> ReqChunk) cs))) = calls w1"
    using loop up
    by (cases r; cases "send_and_close_err e")
       (simp_all add: MediaHandler_UploadStream_def MediaService_UploadStream_def time_Now_def
          Let_def)
  ultimately show ?thesis by simp
qed

lemma UploadStream_waits_for_ever:
  assumes "put_reading e (md_FileSize m) = StopsAfter k" and "k < length c"
  shows "snd (MediaHandler_UploadStream e w
                (Recv (ReqMetadata m) # Recv (ReqChunk c) # rest)) = None"
    and "calls (fst (MediaHandler_UploadStream e w
                (Recv (ReqMetadata m) # Recv (ReqChunk c) # rest))) =
         calls w @ [PutObject (bucketName e) (fst (GenerateKey e w (md_FileName m)))
                      (take k c, None) (md_FileSize m) (md_ContentType m)]"
proof -
  have loop: "recv_chunks (put_reading e (md_FileSize m)) (Recv (ReqChunk c) # rest) [] 0 =
                Blocked c"
    using assms by (simp add: pipe_Write_def)
  then show "snd (MediaHandler_UploadStream e w
                (Recv (ReqMetadata m) # Recv (ReqChunk c) # rest)) = None"
    by (simp add: MediaHandler_UploadStream_def)
  show "calls (fst (MediaHandler_UploadStream e w
                (Recv (ReqMetadata m) # Recv (ReqChunk c) # rest))) =
         calls w @ [PutObject (bucketName e) (fst (GenerateKey e w (md_FileName m)))
                      (take k c, None) (md_FileSize m) (md_ContentType m)]"
    using loop assms
      MinioStorage_Upload_calls [of e w "md_FileName m" "md_FileSize m" "(c, None)"
        "md_ContentType m"]
    by (simp add: MediaHandler_UploadStream_def MediaService_UploadStream_def observe_def)
qed

text \<open>
  C1: a streaming upload is to hand the object store the concatenation of its chunks and
  to answer with their total length, whatever size the metadata announced. The code hands
  the announced size to the storage write and never closes the reading end of the conduit.
  With an object store that reads as many bytes as were announced, the upload of the chunks
  he and llo under an announced size of 0 stores the empty object and the write of the
  first chunk waits for ever: the call never returns, and there is no answer with size 5.
  The whole-body upload of hello, which announces the length of its content, stores hello
  and answers with size 5.
\<close>

theorem UploadStream_announced_size_decides:
  "MediaHandler_UploadStream example_env example_world
     [Recv (ReqMetadata example_metadata), Recv (ReqChunk [0x68, 0x65]),
      Recv (ReqChunk [0x6c, 0x6c, 0x6f])] =
     (\<lparr>uuid_draws = 1, clock_reads = 1,
        calls = [PutObject ''media'' ''2024/01/01/00000000-0000-4000-8000-000000000000.txt''
                   ([], None) 0 ''text/plain'']\<rparr>,
      None) \<and>
   MediaHandler_Upload example_env example_world
     \<lparr>ur_FileName = ''a.txt'', ur_Content = [0x68, 0x65, 0x6c, 0x6c, 0x6f],
      ur_ContentType = ''text/plain''\<rparr> =
     (\<lparr>uuid_draws = 1, clock_reads = 2,
        calls = [PutObject ''media'' ''2024/01/01/00000000-0000-4000-8000-000000000000.txt''
                   ([0x68, 0x65, 0x6c, 0x6c, 0x6f], None) 5 ''text/plain'']\<rparr>,
      Inr \<lparr>up_FilePath = ''2024/01/01/00000000-0000-4000-8000-000000000000.txt'',
           up_Url = ''https://cdn.example.com/media/2024/01/01/00000000-0000-4000-8000-000000000000.txt'',
           up_FileSize = 5, up_UploadedAt = ''2024-01-01T12:00:01Z''\<rparr>)"
proof -
  have x: "filepath_Ext ''a.txt'' = ''.txt''" by (simp add: filepath_Ext_def)
  have key: "GenerateKey example_env example_world ''a.txt'' =
               (''2024/01/01/00000000-0000-4000-8000-000000000000.txt'',
                \<lparr>uuid_draws = 1, clock_reads = 1, calls = []\<rparr>)"
    by (simp add: GenerateKey_eq example_world_def example_key_parts x)
  have loop: "recv_chunks (StopsAfter 0)
                [Recv (ReqChunk [0x68, 0x65]), Recv (ReqChunk [0x6c, 0x6c, 0x6f])] [] 0 =
              Blocked [0x68, 0x65]"
    by (simp add: pipe_Write_def)
  have stamp: "format_RFC3339 (clock example_env 1) = ''2024-01-01T12:00:01Z''"
    by (simp add: example_env_simps format_RFC3339_def zero_pad_def decimal.simps digit_def)
  have stream: "MediaHandler_UploadStream example_env example_world
     [Recv (ReqMetadata example_metadata), Recv (ReqChunk [0x68, 0x65]),
      Recv (ReqChunk [0x6c, 0x6c, 0x6f])] =
     (\<lparr>uuid_draws = 1, clock_reads = 1,
        calls = [PutObject ''media'' ''2024/01/01/00000000-0000-4000-8000-000000000000.txt''
                   ([], None) 0 ''text/plain'']\<rparr>,
      None)"
    using key loop
    by (simp add: MediaHandler_UploadStream_def MediaService_UploadStream_def
          MinioStorage_Upload_def log_call_def observe_def example_metadata_def
          example_env_simps)
  have whole: "MediaHandler_Upload example_env example_world
     \<lparr>ur_FileName = ''a.txt'', ur_Content = [0x68, 0x65, 0x6c, 0x6c, 0x6f],
      ur_ContentType = ''text/plain''\<rparr> =
     (\<lparr>uuid_draws = 1, clock_reads = 2,
        calls = [PutObject ''media'' ''2024/01/01/00000000-0000-4000-8000-000000000000.txt''
                   ([0x68, 0x65, 0x6c, 0x6c, 0x6f], None) 5 ''text/plain'']\<rparr>,
      Inr \<lparr>up_FilePath = ''2024/01/01/00000000-0000-4000-8000-000000000000.txt'',
           up_Url = ''https://cdn.example.com/media/2024/01/01/00000000-0000-4000-8000-000000000000.txt'',
           up_FileSize = 5, up_UploadedAt = ''2024-01-01T12:00:01Z''\<rparr>)"
    using key stamp
    by (simp add: MediaHandler_Upload_def MediaService_UploadFile_def bytes_NewReader_def
          MinioStorage_Upload_def log_call_def observe_def time_Now_def
          MediaService_GetFileURL_def MinioStorage_GetURL_def example_env_simps)
  from stream whole show ?thesis by (rule conjI)
qed

end
